theory Spec2Isabelle
  imports Complex_Main "HOL-Library.Char_ord" "HOL-Library.List_Lexorder"
    "HOL-Library.Multiset" "HOL-Library.AList"
begin

section \<open>qPCR Analyzer: sample names\<close>

text \<open>
  The functions of \<^verbatim>\<open>my_module/functions.py\<close>. A Python \<^verbatim>\<open>str\<close> is modelled as a
  \<^typ>\<open>string\<close>, one \<^typ>\<open>char\<close> per code point below 256. In that range the
  characters matched by \<^verbatim>\<open>\d\<close> are exactly \<^verbatim>\<open>0\<close> to \<^verbatim>\<open>9\<close>.
\<close>

subsection \<open>The pattern \<^verbatim>\<open>_\d+$\<close>\<close>

definition is_digit :: "char \<Rightarrow> bool" where
  "is_digit c = (c \<in> set ''0123456789'')"

definition newline :: char where
  "newline = CHR 0x0A"

text \<open>
  \<^verbatim>\<open>$\<close> without \<^verbatim>\<open>re.MULTILINE\<close>: the position is the end of the string, or it is just
  before a newline that is the last character of the string. The argument is the text
  that remains after the position.
\<close>

definition at_dollar :: "string \<Rightarrow> bool" where
  "at_dollar rest = (rest = [] \<or> rest = [newline])"

text \<open>
  A match of \<^verbatim>\<open>_\d+$\<close> that starts at the head of \<open>t\<close>: the number of characters it
  consumes. \<^verbatim>\<open>\d+\<close> is greedy and takes every digit that follows the underscore; giving
  digits back cannot help, because \<^verbatim>\<open>$\<close> never holds just before a digit.
\<close>

definition match_here :: "string \<Rightarrow> nat option" where
  "match_here t =
     (case t of
        [] \<Rightarrow> None
      | c # u \<Rightarrow>
          if c = CHR ''_'' \<and> takeWhile is_digit u \<noteq> [] \<and> at_dollar (dropWhile is_digit u)
          then Some (Suc (length (takeWhile is_digit u)))
          else None)"

text \<open>
  \<^verbatim>\<open>re.sub(r"_\d+$", "", s)\<close>: scan from the left; where the pattern matches, drop the
  match and go on after it; elsewhere keep the character. The pattern has no empty match.
\<close>

function re_sub_suffix :: "string \<Rightarrow> string" where
  "re_sub_suffix [] = []"
| "re_sub_suffix (c # cs) =
     (case match_here (c # cs) of
        Some n \<Rightarrow> re_sub_suffix (drop n (c # cs))
      | None \<Rightarrow> c # re_sub_suffix cs)"
  by pat_completeness auto
termination
  by (relation "measure length") (auto simp: match_here_def split: if_splits)

definition clean_sample_name :: "string \<Rightarrow> string" where
  "clean_sample_name sample_name = re_sub_suffix sample_name"

text \<open>
  The name normalizer as the specification words it: a name has a replicate suffix when
  it ends with an underscore followed by one or more decimal digits; that suffix is
  removed, and a name without one is returned as it is.
\<close>

definition has_replicate_suffix :: "string \<Rightarrow> bool" where
  "has_replicate_suffix s =
     (takeWhile is_digit (rev s) \<noteq> [] \<and>
      (case dropWhile is_digit (rev s) of [] \<Rightarrow> False | c # _ \<Rightarrow> c = CHR ''_''))"

definition spec_normalize :: "string \<Rightarrow> string" where
  "spec_normalize s =
     (if has_replicate_suffix s then rev (tl (dropWhile is_digit (rev s))) else s)"

definition digits :: "string \<Rightarrow> bool" where
  "digits ds = (ds \<noteq> [] \<and> list_all is_digit ds)"

text \<open>\<^verbatim>\<open>str(k)\<close> for a non-negative integer: its decimal digits, most significant first.\<close>

definition digit_char :: "nat \<Rightarrow> char" where
  "digit_char d = ''0123456789'' ! d"

function str_nat :: "nat \<Rightarrow> string" where
  "str_nat k = (if k < 10 then [digit_char k] else str_nat (k div 10) @ [digit_char (k mod 10)])"
  by pat_completeness auto
termination
  by (relation "measure id") auto

section \<open>Tables\<close>

text \<open>
  A pandas \<^verbatim>\<open>DataFrame\<close> is column-oriented: an index of row labels and an ordered
  collection of named columns, each of one dtype. Three dtypes occur here: text
  (\<^verbatim>\<open>object\<close> holding \<^verbatim>\<open>str\<close>), \<^verbatim>\<open>float64\<close> and \<^verbatim>\<open>int64\<close>. A \<^verbatim>\<open>float64\<close> is either
  a number or \<^verbatim>\<open>NaN\<close>, which is also how a missing measurement is stored. A finite
  float is the real number it denotes; the infinities are outside the tables considered.
  No arithmetic on floats is done here: what pandas computes from them, with its rounding,
  is a parameter of the aggregation (see \<open>kernels\<close> below). A text column holds
  strings only, and column names are taken to be distinct, as \<^verbatim>\<open>read_csv\<close> makes them.
\<close>

datatype float64 = Val real | NaN

datatype column = StrCol "string list" | FloatCol "float64 list" | IntCol "int list"

record dataframe =
  index :: "nat list"
  cols :: "(string \<times> column) list"

datatype error = KeyError string | TypeError | IOError

definition columns :: "dataframe \<Rightarrow> string list" where
  "columns df = map fst (cols df)"

fun col_len :: "column \<Rightarrow> nat" where
  "col_len (StrCol xs) = length xs"
| "col_len (FloatCol xs) = length xs"
| "col_len (IntCol xs) = length xs"

text \<open>Every column of a frame has one entry per row label.\<close>

definition wf_frame :: "dataframe \<Rightarrow> bool" where
  "wf_frame df = list_all (\<lambda>(name, c). col_len c = length (index df)) (cols df)"

text \<open>\<^verbatim>\<open>df[c]\<close>: pandas raises \<^verbatim>\<open>KeyError(c)\<close> for a column that is not there.\<close>

definition getitem :: "dataframe \<Rightarrow> string \<Rightarrow> error + column" where
  "getitem df c = (case map_of (cols df) c of None \<Rightarrow> Inl (KeyError c) | Some col \<Rightarrow> Inr col)"

text \<open>
  \<^verbatim>\<open>series == target_name\<close> against a \<^verbatim>\<open>str\<close>: elementwise string equality on a text
  column; a number never equals a string.
\<close>

fun eq_mask :: "column \<Rightarrow> string \<Rightarrow> bool list" where
  "eq_mask (StrCol xs) g = map (\<lambda>x. x = g) xs"
| "eq_mask (FloatCol xs) g = map (\<lambda>_. False) xs"
| "eq_mask (IntCol xs) g = map (\<lambda>_. False) xs"

fun select :: "bool list \<Rightarrow> 'a list \<Rightarrow> 'a list" where
  "select (b # bs) (x # xs) = (if b then x # select bs xs else select bs xs)"
| "select _ _ = []"

fun select_col :: "bool list \<Rightarrow> column \<Rightarrow> column" where
  "select_col m (StrCol xs) = StrCol (select m xs)"
| "select_col m (FloatCol xs) = FloatCol (select m xs)"
| "select_col m (IntCol xs) = IntCol (select m xs)"

text \<open>\<^verbatim>\<open>df[mask]\<close>: the rows where the mask holds, with their labels, in every column.\<close>

definition getitem_mask :: "dataframe \<Rightarrow> bool list \<Rightarrow> dataframe" where
  "getitem_mask df m =
     \<lparr>index = select m (index df), cols = map (\<lambda>(name, c). (name, select_col m c)) (cols df)\<rparr>"

text \<open>\<^verbatim>\<open>df.copy()\<close> has the contents of \<open>df\<close>; that it is a new object is the subject of
  the section on object identity.\<close>

definition copy :: "dataframe \<Rightarrow> dataframe" where
  "copy df = df"

definition filter_by_target :: "dataframe \<Rightarrow> string \<Rightarrow> error + dataframe" where
  "filter_by_target df target_name =
     (case getitem df ''Target'' of
        Inl e \<Rightarrow> Inl e
      | Inr t \<Rightarrow> Inr (copy (getitem_mask df (eq_mask t target_name))))"

text \<open>
  \<^verbatim>\<open>series.apply(clean_sample_name)\<close>: the function is called on every element. An empty
  series is returned as it is; on a number \<^verbatim>\<open>re.sub\<close> raises \<^verbatim>\<open>TypeError\<close>.
\<close>

fun apply_clean_sample_name :: "column \<Rightarrow> error + column" where
  "apply_clean_sample_name (StrCol xs) = Inr (StrCol (map clean_sample_name xs))"
| "apply_clean_sample_name (FloatCol xs) = (if xs = [] then Inr (FloatCol []) else Inl TypeError)"
| "apply_clean_sample_name (IntCol xs) = (if xs = [] then Inr (IntCol []) else Inl TypeError)"

text \<open>\<^verbatim>\<open>df[c] = col\<close>: replaces the column of that name where it stands, or appends it.\<close>

definition setitem :: "dataframe \<Rightarrow> string \<Rightarrow> column \<Rightarrow> dataframe" where
  "setitem df c col = df\<lparr>cols := AList.update c col (cols df)\<rparr>"

definition add_base_sample_column :: "dataframe \<Rightarrow> error + dataframe" where
  "add_base_sample_column df =
     (let df_out = copy df in
      case getitem df_out ''Sample'' of
        Inl e \<Rightarrow> Inl e
      | Inr s \<Rightarrow>
          (case apply_clean_sample_name s of
             Inl e \<Rightarrow> Inl e
           | Inr b \<Rightarrow> Inr (setitem df_out ''base_sample'' b)))"

subsection \<open>Grouping and aggregation\<close>

text \<open>
  \<^verbatim>\<open>groupby\<close> with its defaults (\<^verbatim>\<open>sort=True\<close>, \<^verbatim>\<open>dropna=True\<close>): the group keys are the
  distinct values of the key column in ascending order, a row whose key is missing
  belongs to no group, and a group holds the values of its rows in row order. A key is
  \<open>None\<close> when it is missing.
\<close>

definition group_keys :: "('k::linorder) option list \<Rightarrow> 'k list" where
  "group_keys ks = sort (remdups (map the (filter (\<lambda>k. k \<noteq> None) ks)))"

definition group_values :: "'k option list \<Rightarrow> 'v list \<Rightarrow> 'k \<Rightarrow> 'v list" where
  "group_values ks vs k = map snd (filter (\<lambda>(k', v). k' = Some k) (zip ks vs))"

definition groupby :: "('k::linorder) option list \<Rightarrow> 'v list \<Rightarrow> ('k \<times> 'v list) list" where
  "groupby ks vs = map (\<lambda>k. (k, group_values ks vs k)) (group_keys ks)"

text \<open>The aggregations skip missing values, as pandas does.\<close>

fun present :: "float64 list \<Rightarrow> real list" where
  "present [] = []"
| "present (Val x # vs) = x # present vs"
| "present (NaN # vs) = present vs"

text \<open>
  The floating-point arithmetic of the aggregations is pandas' and is not in this
  repository. It is a parameter: the float that \<^verbatim>\<open>"mean"\<close> returns for the values of a group
  that are present, when there is at least one, and the float that \<^verbatim>\<open>"std"\<close> returns for
  them, when there are at least two.
\<close>

record kernels =
  mean_kernel :: "real list \<Rightarrow> real"
  std_kernel :: "real list \<Rightarrow> real"

text \<open>\<^verbatim>\<open>"mean"\<close>: of the values that are present; \<^verbatim>\<open>NaN\<close> when there is none.\<close>

definition agg_mean :: "kernels \<Rightarrow> float64 list \<Rightarrow> float64" where
  "agg_mean K vs =
     (let xs = present vs in
      if xs = [] then NaN else Val (mean_kernel K xs))"

text \<open>
  \<^verbatim>\<open>"std"\<close>: of the values that are present, with pandas' default \<^verbatim>\<open>ddof=1\<close>; \<^verbatim>\<open>NaN\<close> when
  they are fewer than two.
\<close>

definition agg_std :: "kernels \<Rightarrow> float64 list \<Rightarrow> float64" where
  "agg_std K vs =
     (let xs = present vs in
      if length xs \<le> 1 then NaN else Val (std_kernel K xs))"

text \<open>\<^verbatim>\<open>"count"\<close>: the number of values that are present.\<close>

definition agg_count :: "float64 list \<Rightarrow> int" where
  "agg_count vs = int (length (present vs))"

text \<open>
  The values of a numeric column as floats. pandas does not average a text column; the
  model reports that as \<^verbatim>\<open>TypeError\<close>.
\<close>

fun to_float :: "column \<Rightarrow> error + float64 list" where
  "to_float (FloatCol xs) = Inr xs"
| "to_float (IntCol xs) = Inr (map (\<lambda>i. Val (real_of_int i)) xs)"
| "to_float (StrCol xs) = Inl TypeError"

text \<open>The dtypes that hold numbers.\<close>

fun numeric :: "column \<Rightarrow> bool" where
  "numeric (StrCol xs) = False"
| "numeric (FloatCol xs) = True"
| "numeric (IntCol xs) = True"

fun float_key :: "float64 \<Rightarrow> real option" where
  "float_key (Val x) = Some x"
| "float_key NaN = None"

text \<open>
  \<^verbatim>\<open>.agg(mean_cq="mean", std_cq="std", n_reps="count").reset_index()\<close>: one row per group,
  the key first, labelled from 0.
\<close>

definition summary_frame :: "kernels \<Rightarrow> column \<Rightarrow> (float64 list) list \<Rightarrow> dataframe" where
  "summary_frame K key_col groups =
     \<lparr>index = [0..<length groups],
      cols = [(''base_sample'', key_col),
              (''mean_cq'', FloatCol (map (agg_mean K) groups)),
              (''std_cq'', FloatCol (map (agg_std K) groups)),
              (''n_reps'', IntCol (map agg_count groups))]\<rparr>"

fun groupby_agg :: "kernels \<Rightarrow> column \<Rightarrow> float64 list \<Rightarrow> dataframe" where
  "groupby_agg K (StrCol ks) vs =
     (let gs = groupby (map Some ks) vs in summary_frame K (StrCol (map fst gs)) (map snd gs))"
| "groupby_agg K (FloatCol ks) vs =
     (let gs = groupby (map float_key ks) vs
      in summary_frame K (FloatCol (map (Val \<circ> fst) gs)) (map snd gs))"
| "groupby_agg K (IntCol ks) vs =
     (let gs = groupby (map Some ks) vs in summary_frame K (IntCol (map fst gs)) (map snd gs))"

definition missing_column :: "string \<Rightarrow> string" where
  "missing_column col = ''Missing required column: '' @ [CHR 0x27] @ col @ [CHR 0x27]"

definition summarize_duplicates :: "kernels \<Rightarrow> dataframe \<Rightarrow> error + dataframe" where
  "summarize_duplicates K df =
     (if ''base_sample'' \<notin> set (columns df) then Inl (KeyError (missing_column ''base_sample''))
      else if ''Cq'' \<notin> set (columns df) then Inl (KeyError (missing_column ''Cq''))
      else
        (case (getitem df ''base_sample'', getitem df ''Cq'') of
           (Inr key_col, Inr cq) \<Rightarrow>
             (case to_float cq of
                Inl e \<Rightarrow> Inl e
              | Inr vs \<Rightarrow> Inr (groupby_agg K key_col vs))
         | (Inl e, _) \<Rightarrow> Inl e
         | (_, Inl e) \<Rightarrow> Inl e))"

subsection \<open>The pipeline\<close>

text \<open>\<^verbatim>\<open>df.empty\<close>: some axis has length 0.\<close>

definition empty :: "dataframe \<Rightarrow> bool" where
  "empty df = (index df = [] \<or> cols df = [])"

text \<open>\<^verbatim>\<open>pd.DataFrame()\<close>: no rows and no columns.\<close>

definition DataFrame :: dataframe where
  "DataFrame = \<lparr>index = [], cols = []\<rparr>"

text \<open>
  \<^verbatim>\<open>load_qpcr_csv\<close> is \<^verbatim>\<open>pd.read_csv\<close>. What it returns for each file name is a parameter
  of the pipeline: a table, or the error it raises.
\<close>

type_synonym loader = "string \<Rightarrow> error + dataframe"

definition summarize_target_from_file ::
  "kernels \<Rightarrow> loader \<Rightarrow> string \<Rightarrow> string \<Rightarrow> error + dataframe" where
  "summarize_target_from_file K load_qpcr_csv filename target_name =
     (case load_qpcr_csv filename of
        Inl e \<Rightarrow> Inl e
      | Inr df \<Rightarrow>
          (case find (\<lambda>col. col \<notin> set (columns df)) [''Target'', ''Sample'', ''Cq''] of
             Some col \<Rightarrow> Inl (KeyError (missing_column col))
           | None \<Rightarrow>
               (case filter_by_target df target_name of
                  Inl e \<Rightarrow> Inl e
                | Inr df_target \<Rightarrow>
                    if empty df_target then Inr DataFrame
                    else
                      (case add_base_sample_column df_target of
                         Inl e \<Rightarrow> Inl e
                       | Inr df_target' \<Rightarrow> summarize_duplicates K df_target'))))"

subsection \<open>Rows\<close>

text \<open>
  The rows of a frame, read across its columns: the label of the row and its cell in
  every column, by column name.
\<close>

datatype cell = CStr string | CFloat float64 | CInt int

fun cells :: "column \<Rightarrow> cell list" where
  "cells (StrCol xs) = map CStr xs"
| "cells (FloatCol xs) = map CFloat xs"
| "cells (IntCol xs) = map CInt xs"

type_synonym row = "nat \<times> (string \<times> cell) list"

fun row_cells :: "(string \<times> column) list \<Rightarrow> nat \<Rightarrow> (string \<times> cell) list list" where
  "row_cells [] n = replicate n []"
| "row_cells ((name, c) # cs) n = map (\<lambda>(x, r). (name, x) # r) (zip (cells c) (row_cells cs n))"

definition rows :: "dataframe \<Rightarrow> row list" where
  "rows df = zip (index df) (row_cells (cols df) (length (index df)))"

definition row_target :: "row \<Rightarrow> cell option" where
  "row_target r = map_of (snd r) ''Target''"

text \<open>The rows of a result, none when the call raised.\<close>

definition result_rows :: "error + dataframe \<Rightarrow> row list" where
  "result_rows res = (case res of Inl e \<Rightarrow> [] | Inr df \<Rightarrow> rows df)"

subsection \<open>Groups and their statistics\<close>

text \<open>
  The group of a sample name: the \<^verbatim>\<open>Cq\<close> values of the rows with that \<^verbatim>\<open>base_sample\<close>, in
  row order.
\<close>

definition group_of :: "string list \<Rightarrow> float64 list \<Rightarrow> string \<Rightarrow> float64 list" where
  "group_of ks vs k = map snd (filter (\<lambda>row. fst row = k) (zip ks vs))"

text \<open>The measurements of a group: its values that are numbers, in order.\<close>

definition measured :: "float64 list \<Rightarrow> real list" where
  "measured vs = concat (map (\<lambda>v. case v of Val x \<Rightarrow> [x] | NaN \<Rightarrow> []) vs)"

text \<open>
  The statistics as the specification words them: the arithmetic mean, and the sample
  standard deviation with divisor \<open>n - 1\<close>.
\<close>

definition mean :: "real list \<Rightarrow> real" where
  "mean xs = sum_list xs / real (length xs)"

definition sample_std :: "real list \<Rightarrow> real" where
  "sample_std xs = sqrt ((\<Sum>x\<leftarrow>xs. (x - mean xs)\<^sup>2) / (real (length xs) - 1))"

text \<open>
  The kernels without rounding. pandas' floats differ from them by the rounding of its
  arithmetic; where the results are floats themselves, as for the tables of the tests,
  they are the same.
\<close>

definition exact :: kernels where
  "exact = \<lparr>mean_kernel = mean, std_kernel = sample_std\<rparr>"

section \<open>Object identity\<close>

text \<open>
  Python passes frames by reference. The store holds the frames that exist, a reference
  is a position in it, and a new object takes the next position. The functions are
  repeated with the store explicit, step by step as the source creates and updates
  objects; each returns its result or error together with the store it leaves.
\<close>

type_synonym ref = nat
type_synonym store = "dataframe list"

definition new :: "store \<Rightarrow> dataframe \<Rightarrow> ref \<times> store" where
  "new h df = (length h, h @ [df])"

text \<open>\<^verbatim>\<open>df.copy()\<close>: a new object with the contents of the old one (a deep copy).\<close>

definition copy_obj :: "store \<Rightarrow> ref \<Rightarrow> ref \<times> store" where
  "copy_obj h r = new h (copy (h ! r))"

text \<open>\<^verbatim>\<open>df[c] = col\<close> updates the object in place.\<close>

definition setitem_obj :: "store \<Rightarrow> ref \<Rightarrow> string \<Rightarrow> column \<Rightarrow> store" where
  "setitem_obj h r c col = h[r := setitem (h ! r) c col]"

definition filter_by_target_obj :: "store \<Rightarrow> ref \<Rightarrow> string \<Rightarrow> (error + ref) \<times> store" where
  "filter_by_target_obj h df target_name =
     (case getitem (h ! df) ''Target'' of
        Inl e \<Rightarrow> (Inl e, h)
      | Inr t \<Rightarrow>
          (let (selected, h1) = new h (getitem_mask (h ! df) (eq_mask t target_name));
               (res, h2) = copy_obj h1 selected
           in (Inr res, h2)))"

definition add_base_sample_column_obj :: "store \<Rightarrow> ref \<Rightarrow> (error + ref) \<times> store" where
  "add_base_sample_column_obj h df =
     (let (df_out, h1) = copy_obj h df in
      case getitem (h1 ! df_out) ''Sample'' of
        Inl e \<Rightarrow> (Inl e, h1)
      | Inr s \<Rightarrow>
          (case apply_clean_sample_name s of
             Inl e \<Rightarrow> (Inl e, h1)
           | Inr b \<Rightarrow> (Inr df_out, setitem_obj h1 df_out ''base_sample'' b)))"

definition summarize_duplicates_obj ::
  "kernels \<Rightarrow> store \<Rightarrow> ref \<Rightarrow> (error + ref) \<times> store" where
  "summarize_duplicates_obj K h df =
     (case summarize_duplicates K (h ! df) of
        Inl e \<Rightarrow> (Inl e, h)
      | Inr summary \<Rightarrow> (let (res, h1) = new h summary in (Inr res, h1)))"

text \<open>What a call returned, read from the store it left.\<close>

definition returned :: "(error + ref) \<times> store \<Rightarrow> error + dataframe" where
  "returned res = (case fst res of Inl e \<Rightarrow> Inl e | Inr r \<Rightarrow> Inr (snd res ! r))"

text \<open>
  A call leaves its input alone: the object passed in holds the same frame afterwards, as
  does every object that existed before, and a returned reference is to an object that
  did not exist before the call.
\<close>

definition input_unchanged :: "store \<Rightarrow> ref \<Rightarrow> (error + ref) \<times> store \<Rightarrow> bool" where
  "input_unchanged h df call =
     (snd call ! df = h ! df \<and> take (length h) (snd call) = h \<and>
      (case fst call of
         Inl e \<Rightarrow> True
       | Inr r \<Rightarrow> r \<noteq> df \<and> length h \<le> r \<and> r < length (snd call)))"

section \<open>Tables of the test suite\<close>

text \<open>The table of \<^verbatim>\<open>test_filter_by_target_returns_only_requested_gene\<close>.\<close>

definition test_targets :: dataframe where
  "test_targets =
     \<lparr>index = [0, 1, 2],
      cols = [(''Target'', StrCol [''Actb'', ''Actb'', ''Stat3'']),
              (''Sample'', StrCol [''s1'', ''s2'', ''s1'']),
              (''Cq'', FloatCol [Val 20, Val 21, Val 24])]\<rparr>"

text \<open>
  The table of \<^verbatim>\<open>test_summarize_duplicates_computes_mean_and_count\<close>, before and after
  \<open>add_base_sample_column\<close>.
\<close>

definition test_replicates :: dataframe where
  "test_replicates =
     \<lparr>index = [0, 1, 2],
      cols = [(''Sample'', StrCol [''KC_sample1_1'', ''KC_sample1_2'', ''Control_1'']),
              (''Cq'', FloatCol [Val 20, Val 22, Val 18])]\<rparr>"

definition test_replicates_base :: dataframe where
  "test_replicates_base =
     \<lparr>index = [0, 1, 2],
      cols = [(''Sample'', StrCol [''KC_sample1_1'', ''KC_sample1_2'', ''Control_1'']),
              (''Cq'', FloatCol [Val 20, Val 22, Val 18]),
              (''base_sample'', StrCol [''KC_sample1'', ''KC_sample1'', ''Control''])]\<rparr>"



text \<open>A well whose \<^verbatim>\<open>Cq\<close> was exported as text.\<close>

definition text_cq :: dataframe where
  "text_cq =
     \<lparr>index = [0],
      cols = [(''Sample'', StrCol [''Control_1'']),
              (''Cq'', StrCol [''Undetermined'']),
              (''base_sample'', StrCol [''Control''])]\<rparr>"

text \<open>A table that has the derived column and no measurements.\<close>

definition base_sample_only :: dataframe where
  "base_sample_only = \<lparr>index = [0], cols = [(''base_sample'', StrCol [''Control''])]\<rparr>"

section \<open>Properties of the name normalizer\<close>

subsection \<open>Where the pattern matches\<close>



lemma underscore_not_digit: "\<not> is_digit CHR ''_''"
  by (simp add: is_digit_def)

lemma newline_not_digit: "\<not> is_digit newline"
  by (simp add: is_digit_def newline_def)

lemma match_here_Some:
  "match_here t = Some n \<longleftrightarrow>
     (\<exists>ds r. t = CHR ''_'' # ds @ r \<and> digits ds \<and> at_dollar r \<and> n = Suc (length ds))"
proof
  assume m: "match_here t = Some n"
  then obtain u where t: "t = CHR ''_'' # u"
    and ne: "takeWhile is_digit u \<noteq> []"
    and d: "at_dollar (dropWhile is_digit u)"
    and n: "n = Suc (length (takeWhile is_digit u))"
    by (auto simp: match_here_def split: list.splits if_splits)
  have "u = takeWhile is_digit u @ dropWhile is_digit u" by simp
  moreover have "digits (takeWhile is_digit u)"
    using ne by (simp add: digits_def list_all_iff) (meson set_takeWhileD)
  ultimately show "\<exists>ds r. t = CHR ''_'' # ds @ r \<and> digits ds \<and> at_dollar r \<and> n = Suc (length ds)"
    using t d n by blast
next
  assume "\<exists>ds r. t = CHR ''_'' # ds @ r \<and> digits ds \<and> at_dollar r \<and> n = Suc (length ds)"
  then obtain ds r where t: "t = CHR ''_'' # ds @ r" and ds: "digits ds"
    and r: "at_dollar r" and n: "n = Suc (length ds)" by blast
  have all: "\<forall>x\<in>set ds. is_digit x" using ds by (simp add: digits_def list_all_iff)
  have r': "r = [] \<or> \<not> is_digit (hd r)"
    using r newline_not_digit by (auto simp: at_dollar_def)
  have tw: "takeWhile is_digit (ds @ r) = ds"
    using all r' by (cases r) (simp_all add: takeWhile_append2)
  have dw: "dropWhile is_digit (ds @ r) = r"
    using all r' by (cases r) (simp_all add: dropWhile_append2)
  show "match_here t = Some n"
    using t ds r n tw dw by (simp add: match_here_def digits_def)
qed

lemma re_sub_suffix_no_match:
  "(\<And>i. match_here (drop i s) = None) \<Longrightarrow> re_sub_suffix s = s"
proof (induction s)
  case Nil
  then show ?case by simp
next
  case (Cons c cs)
  have h: "match_here (c # cs) = None" using Cons.prems [of 0] by simp
  have "\<And>i. match_here (drop i cs) = None" using Cons.prems [of "Suc i" for i] by simp
  then have "re_sub_suffix cs = cs" by (rule Cons.IH)
  with h show ?case by simp
qed

lemma at_dollar_no_match: "at_dollar r \<Longrightarrow> re_sub_suffix r = r"
  by (auto simp: at_dollar_def match_here_def newline_def)

lemma match_here_before_underscore:
  assumes "digits ds" "at_dollar r"
  shows "match_here (c # p @ CHR ''_'' # ds @ r) = None"
proof -
  have "length (dropWhile is_digit (p @ CHR ''_'' # ds @ r)) \<ge> 2"
  proof (cases "\<forall>x\<in>set p. is_digit x")
    case True
    then have "dropWhile is_digit (p @ CHR ''_'' # ds @ r) = CHR ''_'' # ds @ r"
      by (simp add: dropWhile_append2 underscore_not_digit)
    then show ?thesis using assms(1) by (cases ds) (simp_all add: digits_def)
  next
    case False
    then have "dropWhile is_digit (p @ CHR ''_'' # ds @ r) = dropWhile is_digit p @ CHR ''_'' # ds @ r"
      by (metis dropWhile_append1)
    then show ?thesis using assms(1) by (cases ds) (simp_all add: digits_def)
  qed
  moreover have "at_dollar x \<Longrightarrow> length x \<le> 1" for x
    by (auto simp: at_dollar_def)
  ultimately have "\<not> at_dollar (dropWhile is_digit (p @ CHR ''_'' # ds @ r))"
    by fastforce
  then show ?thesis by (simp add: match_here_def)
qed

lemma re_sub_suffix_strips:
  assumes "digits ds" "at_dollar r"
  shows "re_sub_suffix (p @ CHR ''_'' # ds @ r) = p @ r"
proof (induction p)
  case Nil
  have "match_here (CHR ''_'' # ds @ r) = Some (Suc (length ds))"
    using assms by (auto simp: match_here_Some)
  then show ?case using assms(2) by (simp add: at_dollar_no_match)
next
  case (Cons c p)
  then show ?case using match_here_before_underscore [OF assms, of c p] by simp
qed


lemma digits_takeWhile: "digits ds \<Longrightarrow> \<not> is_digit c \<Longrightarrow> takeWhile is_digit (ds @ c # r) = ds"
  by (simp add: digits_def list_all_iff takeWhile_append2)

lemma digits_dropWhile: "digits ds \<Longrightarrow> \<not> is_digit c \<Longrightarrow> dropWhile is_digit (ds @ c # r) = c # r"
  by (simp add: digits_def list_all_iff dropWhile_append2)

lemma digits_rev: "digits (rev ds) = digits ds"
  by (simp add: digits_def list_all_iff)

lemma has_replicate_suffix_iff:
  "has_replicate_suffix s \<longleftrightarrow> (\<exists>p ds. s = p @ CHR ''_'' # ds \<and> digits ds)"
proof
  assume h: "has_replicate_suffix s"
  then obtain r where dw: "dropWhile is_digit (rev s) = CHR ''_'' # r"
    and ne: "takeWhile is_digit (rev s) \<noteq> []"
    by (auto simp: has_replicate_suffix_def split: list.splits)
  have "rev s = takeWhile is_digit (rev s) @ CHR ''_'' # r"
    using dw takeWhile_dropWhile_id [of is_digit "rev s"] by simp
  then have "s = rev (takeWhile is_digit (rev s) @ CHR ''_'' # r)"
    by (metis rev_rev_ident)
  then have "s = rev r @ CHR ''_'' # rev (takeWhile is_digit (rev s))" by simp
  moreover have "digits (rev (takeWhile is_digit (rev s)))"
    using ne by (simp add: digits_def list_all_iff) (meson set_takeWhileD)
  ultimately show "\<exists>p ds. s = p @ CHR ''_'' # ds \<and> digits ds" by blast
next
  assume "\<exists>p ds. s = p @ CHR ''_'' # ds \<and> digits ds"
  then obtain p ds where s: "s = p @ CHR ''_'' # ds" and d: "digits ds" by blast
  have r: "rev s = rev ds @ CHR ''_'' # rev p" using s by simp
  have d': "digits (rev ds)" using d by (simp add: digits_rev)
  show "has_replicate_suffix s"
    using d' digits_takeWhile [OF d' underscore_not_digit] digits_dropWhile [OF d' underscore_not_digit]
    by (simp add: has_replicate_suffix_def r digits_def)
qed

lemma spec_normalize_strips:
  assumes "digits ds"
  shows "spec_normalize (p @ CHR ''_'' # ds) = p"
proof -
  have d': "digits (rev ds)" using assms by (simp add: digits_rev)
  have "has_replicate_suffix (p @ CHR ''_'' # ds)"
    using assms has_replicate_suffix_iff by blast
  then show ?thesis
    using digits_dropWhile [OF d' underscore_not_digit, of "rev p"]
    by (simp add: spec_normalize_def)
qed

lemma clean_sample_name_strips:
  "digits ds \<Longrightarrow> clean_sample_name (p @ CHR ''_'' # ds) = p"
  using re_sub_suffix_strips [of ds "[]" p] by (simp add: clean_sample_name_def at_dollar_def)

lemma clean_sample_name_before_newline:
  "digits ds \<Longrightarrow> clean_sample_name (p @ CHR ''_'' # ds @ [newline]) = p @ [newline]"
  using re_sub_suffix_strips [of ds "[newline]" p] by (simp add: clean_sample_name_def at_dollar_def)

lemma clean_sample_name_unchanged:
  assumes "\<not> has_replicate_suffix s"
    and "\<not> (\<exists>p ds. s = p @ CHR ''_'' # ds @ [newline] \<and> digits ds)"
  shows "clean_sample_name s = s"
proof -
  have "match_here (drop i s) = None" for i
  proof (rule ccontr)
    assume "match_here (drop i s) \<noteq> None"
    then obtain n where "match_here (drop i s) = Some n" by auto
    then obtain ds r where d: "drop i s = CHR ''_'' # ds @ r" and ds: "digits ds" and r: "at_dollar r"
      by (auto simp: match_here_Some)
    have s: "s = take i s @ CHR ''_'' # ds @ r"
      using d append_take_drop_id [of i s] by simp
    from r show False
    proof (simp only: at_dollar_def, elim disjE)
      assume "r = []"
      with s ds have "\<exists>p ds. s = p @ CHR ''_'' # ds \<and> digits ds" by auto
      with assms(1) show False by (simp add: has_replicate_suffix_iff)
    next
      assume "r = [newline]"
      with s ds assms(2) show False by blast
    qed
  qed
  then show ?thesis by (simp add: clean_sample_name_def re_sub_suffix_no_match)
qed

lemma clean_sample_name_eq_spec:
  assumes "\<not> (\<exists>p ds. s = p @ CHR ''_'' # ds @ [newline] \<and> digits ds)"
  shows "clean_sample_name s = spec_normalize s"
proof (cases "has_replicate_suffix s")
  case True
  then obtain p ds where "s = p @ CHR ''_'' # ds" "digits ds"
    by (auto simp: has_replicate_suffix_iff)
  then show ?thesis by (simp add: clean_sample_name_strips spec_normalize_strips)
next
  case False
  then show ?thesis using assms by (simp add: clean_sample_name_unchanged spec_normalize_def)
qed

lemma is_digit_digit_char: "d < 10 \<Longrightarrow> is_digit (digit_char d)"
  unfolding is_digit_def digit_char_def by (rule nth_mem) simp

lemma digits_str_nat: "digits (str_nat k)"
proof (induction k rule: str_nat.induct)
  case (1 k)
  show ?case
  proof (cases "k < 10")
    case True
    then show ?thesis by (simp add: digits_def is_digit_digit_char)
  next
    case False
    then have "digits (str_nat (k div 10))" using 1 by simp
    moreover have "is_digit (digit_char (k mod 10))" by (simp add: is_digit_digit_char)
    moreover have "str_nat k = str_nat (k div 10) @ [digit_char (k mod 10)]"
      using False by (subst str_nat.simps) simp
    ultimately show ?thesis by (simp add: digits_def)
  qed
qed

lemma clean_sample_name_str: "clean_sample_name (s @ ''_'' @ str_nat k) = s"
  using clean_sample_name_strips [OF digits_str_nat, of s k] by simp

subsection \<open>The documented examples\<close>

lemma clean_sample_name_examples:
  "clean_sample_name ''KC_sample1_1'' = ''KC_sample1'' \<and>
   clean_sample_name ''KC_sample1_2'' = ''KC_sample1'' \<and>
   clean_sample_name ''X_12'' = ''X'' \<and>
   clean_sample_name ''A_1_2'' = ''A_1'' \<and>
   clean_sample_name ''Control'' = ''Control''"
  by code_simp

subsection \<open>A suffix before a final newline\<close>

text \<open>
  Claim C1. The normalizer removes a trailing underscore-and-digits suffix and nothing
  else. The lemmas above show that it does so on every name except where the digits are
  followed by one final newline (\<open>clean_sample_name_eq_spec\<close>): there \<^verbatim>\<open>$\<close> matches before
  the newline. The name \<^verbatim>\<open>"A_1\n"\<close> does not end with an underscore and digits, and yet
  \<^verbatim>\<open>_1\<close> is removed from inside it.
\<close>

theorem clean_sample_name_strips_before_newline:
  "\<not> has_replicate_suffix ''A_1\<newline>'' \<and>
   spec_normalize ''A_1\<newline>'' = ''A_1\<newline>'' \<and>
   clean_sample_name ''A_1\<newline>'' = ''A\<newline>''"
  by code_simp

text \<open>
  Claim C2. The two normalization laws. The second holds for every name and every number
  (\<open>clean_sample_name_str\<close>). The first, that a name without a trailing underscore-and-digits
  suffix is returned as it is, fails on the same names as above: \<^verbatim>\<open>"X_12\n"\<close> has no such
  suffix and is changed.
\<close>

theorem clean_sample_name_changes_unsuffixed_name:
  "\<not> has_replicate_suffix ''X_12\<newline>'' \<and>
   clean_sample_name ''X_12\<newline>'' \<noteq> ''X_12\<newline>''"
  by code_simp

section \<open>Properties of the target filter\<close>


lemma select_map: "select m (map f xs) = map f (select m xs)"
  by (induction m xs rule: select.induct) auto

lemma select_zip: "select m (zip xs ys) = zip (select m xs) (select m ys)"
  by (induction m xs arbitrary: ys rule: select.induct) (auto simp: zip_Cons1 split: list.splits)

lemma length_select: "length m = length xs \<Longrightarrow> length (select m xs) = length (filter (\<lambda>b. b) m)"
  by (induction m xs rule: select.induct) auto

lemma select_replicate: "select m (replicate (length m) x) = replicate (length (filter (\<lambda>b. b) m)) x"
  by (induction m) auto

lemma select_filter: "select (map P xs) xs = filter P xs"
  by (induction xs) auto

lemma cells_select_col: "cells (select_col m c) = select m (cells c)"
  by (cases c) (simp_all add: select_map)

lemma length_cells: "length (cells c) = col_len c"
  by (cases c) simp_all

lemma col_len_select_col: "col_len c = length m \<Longrightarrow> col_len (select_col m c) = length (filter (\<lambda>b. b) m)"
  by (cases c) (simp_all add: length_select)

lemma length_eq_mask: "length (eq_mask t g) = col_len t"
  by (cases t) simp_all

lemma eq_mask_cells: "eq_mask t g = map (\<lambda>x. x = CStr g) (cells t)"
  by (cases t) (simp_all add: comp_def)

lemma length_row_cells:
  "list_all (\<lambda>(name, c). col_len c = n) cs \<Longrightarrow> length (row_cells cs n) = n"
  by (induction cs) (auto simp: length_cells)

lemma row_cells_select:
  "list_all (\<lambda>(name, c). col_len c = length m) cs \<Longrightarrow>
   row_cells (map (\<lambda>(name, c). (name, select_col m c)) cs) (length (filter (\<lambda>b. b) m)) =
   select m (row_cells cs (length m))"
proof (induction cs)
  case Nil
  then show ?case by (simp add: select_replicate)
next
  case (Cons a cs)
  obtain name c where a: "a = (name, c)" by (cases a)
  with Cons show ?case
    by (simp add: cells_select_col select_map select_zip)
qed

lemma map_of_row_cells:
  "list_all (\<lambda>(name, c). col_len c = n) cs \<Longrightarrow>
   map (\<lambda>r. map_of r k) (row_cells cs n) =
     (case map_of cs k of None \<Rightarrow> replicate n None | Some col \<Rightarrow> map Some (cells col))"
proof (induction cs)
  case Nil
  then show ?case by simp
next
  case (Cons a cs)
  obtain name c where a: "a = (name, c)" by (cases a)
  have len: "length (cells c) = n" "length (row_cells cs n) = n"
    using Cons.prems a by (simp_all add: length_cells length_row_cells)
  show ?case
  proof (cases "name = k")
    case True
    have "map (\<lambda>r. map_of r k) (row_cells (a # cs) n) = map (\<lambda>(x, r). Some x) (zip (cells c) (row_cells cs n))"
      using a True by (simp add: comp_def case_prod_unfold)
    also have "\<dots> = map Some (map fst (zip (cells c) (row_cells cs n)))"
      by (simp add: comp_def case_prod_unfold)
    also have "\<dots> = map Some (cells c)" using len by simp
    finally show ?thesis using a True by simp
  next
    case False
    have "map (\<lambda>r. map_of r k) (row_cells (a # cs) n) = map (\<lambda>r. map_of r k) (map snd (zip (cells c) (row_cells cs n)))"
      using a False by (simp add: comp_def case_prod_unfold)
    also have "\<dots> = map (\<lambda>r. map_of r k) (row_cells cs n)" using len by simp
    finally show ?thesis using a False Cons by simp
  qed
qed

lemma wf_frame_getitem_mask:
  assumes "wf_frame df" "length m = length (index df)"
  shows "wf_frame (getitem_mask df m)"
  using assms
  by (auto simp: wf_frame_def getitem_mask_def list_all_iff length_select col_len_select_col)

lemma rows_getitem_mask:
  assumes "wf_frame df" "length m = length (index df)"
  shows "rows (getitem_mask df m) = select m (rows df)"
proof -
  have "list_all (\<lambda>(name, c). col_len c = length m) (cols df)"
    using assms by (simp add: wf_frame_def)
  then show ?thesis
    using assms(2) row_cells_select [of m "cols df"]
    by (simp add: rows_def getitem_mask_def select_zip length_select)
qed

lemma row_target_rows:
  assumes "wf_frame df" "getitem df ''Target'' = Inr t"
  shows "map row_target (rows df) = map Some (cells t)"
proof -
  have t: "map_of (cols df) ''Target'' = Some t"
    using assms(2) by (simp add: getitem_def split: option.splits)
  have w: "list_all (\<lambda>(name, c). col_len c = length (index df)) (cols df)"
    using assms(1) by (simp add: wf_frame_def)
  have "map row_target (rows df) =
        map (\<lambda>r. map_of r ''Target'') (map snd (zip (index df) (row_cells (cols df) (length (index df)))))"
    by (simp add: rows_def row_target_def comp_def)
  also have "\<dots> = map (\<lambda>r. map_of r ''Target'') (row_cells (cols df) (length (index df)))"
    using length_row_cells [OF w] by simp
  finally show ?thesis using map_of_row_cells [OF w, of "''Target''"] t by simp
qed

lemma eq_mask_rows:
  assumes "wf_frame df" "getitem df ''Target'' = Inr t"
  shows "eq_mask t g = map (\<lambda>r. row_target r = Some (CStr g)) (rows df)"
proof -
  have "map (\<lambda>r. row_target r = Some (CStr g)) (rows df) = map (\<lambda>x. x = Some (CStr g)) (map row_target (rows df))"
    by (simp add: comp_def)
  also have "\<dots> = map (\<lambda>x. x = CStr g) (cells t)"
    using row_target_rows [OF assms] by (simp add: comp_def)
  finally show ?thesis by (simp add: eq_mask_cells)
qed

lemma length_rows: "wf_frame df \<Longrightarrow> length (rows df) = length (index df)"
  by (simp add: rows_def wf_frame_def length_row_cells)

lemma filter_by_target_rows:
  assumes "wf_frame df" "getitem df ''Target'' = Inr t"
  shows "filter_by_target df g = Inr (getitem_mask df (eq_mask t g))"
    and "rows (getitem_mask df (eq_mask t g)) = filter (\<lambda>r. row_target r = Some (CStr g)) (rows df)"
proof -
  show "filter_by_target df g = Inr (getitem_mask df (eq_mask t g))"
    using assms(2) by (simp add: filter_by_target_def copy_def)
  have len: "length (eq_mask t g) = length (index df)"
    using eq_mask_rows [OF assms, of g] length_rows [OF assms(1)] by simp
  show "rows (getitem_mask df (eq_mask t g)) = filter (\<lambda>r. row_target r = Some (CStr g)) (rows df)"
    using rows_getitem_mask [OF assms(1) len] eq_mask_rows [OF assms, of g]
    by (simp add: select_filter)
qed

lemma mset_filter_keys:
  "distinct ks \<Longrightarrow>
   mset (concat (map (\<lambda>k. filter (\<lambda>r. f r = k) rs) ks)) = mset (filter (\<lambda>r. f r \<in> set ks) rs)"
proof (induction ks)
  case Nil
  then show ?case by simp
next
  case (Cons k ks)
  have "mset (filter (\<lambda>r. f r = k) rs) + mset (filter (\<lambda>r. f r \<in> set ks) rs)
        = mset (filter (\<lambda>r. f r \<in> set (k # ks)) rs)"
    using Cons.prems by (induction rs) auto
  with Cons show ?case by simp
qed


lemma filter_by_target_all_targets:
  assumes "wf_frame df" and "getitem df ''Target'' = Inr (StrCol ts)"
  shows "mset (concat (map (\<lambda>g. result_rows (filter_by_target df g)) (remdups ts))) = mset (rows df)"
proof -
  let ?h = "\<lambda>g. Some (CStr g)"
  have res: "result_rows (filter_by_target df g) = filter (\<lambda>r. row_target r = ?h g) (rows df)" for g
    using filter_by_target_rows [OF assms, of g] by (simp add: result_rows_def)
  have d: "distinct (map ?h (remdups ts))"
    by (simp add: distinct_map inj_on_def)
  have tg: "map row_target (rows df) = map ?h ts"
    using row_target_rows [OF assms] by (simp add: comp_def)
  have mem: "row_target r \<in> set (map ?h (remdups ts))" if "r \<in> set (rows df)" for r
  proof -
    have "row_target r \<in> set (map row_target (rows df))" using that by simp
    then show ?thesis by (simp add: tg)
  qed
  have "concat (map (\<lambda>g. result_rows (filter_by_target df g)) (remdups ts))
        = concat (map (\<lambda>k. filter (\<lambda>r. row_target r = k) (rows df)) (map ?h (remdups ts)))"
    by (simp add: res comp_def)
  then have "mset (concat (map (\<lambda>g. result_rows (filter_by_target df g)) (remdups ts)))
        = mset (filter (\<lambda>r. row_target r \<in> set (map ?h (remdups ts))) (rows df))"
    using mset_filter_keys [OF d, of row_target "rows df"] by simp
  also have "filter (\<lambda>r. row_target r \<in> set (map ?h (remdups ts))) (rows df) = rows df"
    using mem by (simp add: filter_id_conv)
  finally show ?thesis .
qed

lemma columns_getitem_mask: "columns (getitem_mask df m) = columns df"
  by (simp add: columns_def getitem_mask_def comp_def case_prod_unfold)

text \<open>
  Claim C3. On a table with a text column \<^verbatim>\<open>Target\<close>, \<open>filter_by_target\<close> returns the rows
  whose \<^verbatim>\<open>Target\<close> cell is exactly the given string, in their order and with their labels,
  under the same columns; with no such row the result has no rows. Taken over the distinct
  targets of the table, the results hold every row of the table exactly once.
\<close>

theorem filter_by_target_partition:
  assumes "wf_frame df" and "getitem df ''Target'' = Inr (StrCol ts)"
  shows "(\<exists>df'. filter_by_target df g = Inr df' \<and> wf_frame df' \<and> columns df' = columns df \<and>
            rows df' = filter (\<lambda>r. row_target r = Some (CStr g)) (rows df) \<and>
            (g \<notin> set ts \<longrightarrow> index df' = [])) \<and>
         mset (concat (map (\<lambda>g. result_rows (filter_by_target df g)) (remdups ts))) = mset (rows df)"
proof -
  let ?m = "eq_mask (StrCol ts) g"
  have len: "length ?m = length (index df)"
    using eq_mask_rows [OF assms, of g] length_rows [OF assms(1)] by simp
  have "filter_by_target df g = Inr (getitem_mask df ?m)"
    by (rule filter_by_target_rows(1) [OF assms])
  moreover have "wf_frame (getitem_mask df ?m)"
    by (rule wf_frame_getitem_mask [OF assms(1) len])
  moreover have "rows (getitem_mask df ?m) = filter (\<lambda>r. row_target r = Some (CStr g)) (rows df)"
    by (rule filter_by_target_rows(2) [OF assms])
  moreover have "index (getitem_mask df ?m) = []" if "g \<notin> set ts"
  proof -
    have "filter (\<lambda>b. b) ?m = []" using that by (auto simp: filter_empty_conv)
    then have "length (index (getitem_mask df ?m)) = 0"
      using len by (simp add: getitem_mask_def length_select)
    then show ?thesis by simp
  qed
  ultimately show ?thesis
    using filter_by_target_all_targets [OF assms] columns_getitem_mask by blast
qed

theorem filter_by_target_partition_witness:
  "wf_frame test_targets \<and>
   getitem test_targets ''Target'' = Inr (StrCol [''Actb'', ''Actb'', ''Stat3'']) \<and>
   (\<exists>df'. filter_by_target test_targets ''Stat3'' = Inr df' \<and> wf_frame df' \<and>
       columns df' = columns test_targets \<and>
       rows df' = filter (\<lambda>r. row_target r = Some (CStr ''Stat3'')) (rows test_targets) \<and>
       (''Stat3'' \<notin> set [''Actb'', ''Actb'', ''Stat3''] \<longrightarrow> index df' = [])) \<and>
   mset (concat (map (\<lambda>g. result_rows (filter_by_target test_targets g))
                     (remdups [''Actb'', ''Actb'', ''Stat3'']))) = mset (rows test_targets)"
proof -
  have h1: "wf_frame test_targets"
    by (simp add: wf_frame_def test_targets_def)
  have h2: "getitem test_targets ''Target'' = Inr (StrCol [''Actb'', ''Actb'', ''Stat3''])"
    by (simp add: getitem_def test_targets_def)
  show ?thesis
    using h1 h2 filter_by_target_partition [OF h1 h2, of "''Stat3''"] by blast
qed

lemma filter_by_target_test:
  "filter_by_target test_targets ''Actb'' =
     Inr \<lparr>index = [0, 1],
          cols = [(''Target'', StrCol [''Actb'', ''Actb'']),
                  (''Sample'', StrCol [''s1'', ''s2'']),
                  (''Cq'', FloatCol [Val 20, Val 21])]\<rparr> \<and>
   filter_by_target test_targets ''actb'' =
     Inr \<lparr>index = [],
          cols = [(''Target'', StrCol []), (''Sample'', StrCol []), (''Cq'', FloatCol [])]\<rparr>"
  by (simp add: filter_by_target_def getitem_def test_targets_def copy_def getitem_mask_def)

section \<open>Properties of the aggregator\<close>

subsection \<open>Missing columns\<close>

lemma getitem_cases:
  "getitem df c =
     (if c \<in> set (columns df) then Inr (the (map_of (cols df) c)) else Inl (KeyError c))"
proof (cases "map_of (cols df) c")
  case None
  then have "c \<notin> set (columns df)" by (simp add: columns_def map_of_eq_None_iff)
  with None show ?thesis by (simp add: getitem_def)
next
  case (Some col)
  then have "c \<in> set (columns df)"
    unfolding columns_def by (metis map_of_eq_None_iff option.distinct(1) set_map)
  with Some show ?thesis by (simp add: getitem_def)
qed

lemma getitem_Inr_iff: "(\<exists>col. getitem df c = Inr col) \<longleftrightarrow> c \<in> set (columns df)"
  by (simp add: getitem_cases)

lemma getitem_Inl_iff: "getitem df c = Inl e \<longleftrightarrow> c \<notin> set (columns df) \<and> e = KeyError c"
  by (auto simp: getitem_cases)

lemma to_float_numeric: "(\<exists>vs. to_float c = Inr vs) \<longleftrightarrow> numeric c"
  by (cases c) simp_all

lemma to_float_Inl: "to_float c = Inl e \<Longrightarrow> e = TypeError"
  by (cases c) simp_all

lemma length_to_float: "to_float c = Inr vs \<Longrightarrow> length vs = col_len c"
  by (cases c) auto

lemma summarize_duplicates_present:
  assumes "getitem df ''base_sample'' = Inr key_col" "getitem df ''Cq'' = Inr cq"
  shows "summarize_duplicates K df =
           (case to_float cq of Inl e \<Rightarrow> Inl e | Inr vs \<Rightarrow> Inr (groupby_agg K key_col vs))"
proof -
  have "''base_sample'' \<in> set (columns df)" "''Cq'' \<in> set (columns df)"
    using assms getitem_Inr_iff by blast+
  then show ?thesis using assms by (simp add: summarize_duplicates_def)
qed

text \<open>
  Claim C5. \<open>summarize_duplicates\<close> raises \<^verbatim>\<open>KeyError\<close> exactly when the table lacks
  \<^verbatim>\<open>base_sample\<close> or \<^verbatim>\<open>Cq\<close>, and the message names the column: \<^verbatim>\<open>base_sample\<close> when that one
  is missing, else \<^verbatim>\<open>Cq\<close>. With both columns there and \<^verbatim>\<open>Cq\<close> numeric the call returns a
  summary.
\<close>


lemma summarize_duplicates_text_cq:
  assumes "''base_sample'' \<in> set (columns df)" "getitem df ''Cq'' = Inr (StrCol xs)"
  shows "summarize_duplicates K df = Inl TypeError"
proof -
  obtain key_col where k: "getitem df ''base_sample'' = Inr key_col"
    using assms(1) getitem_Inr_iff by blast
  show ?thesis by (simp add: summarize_duplicates_present [OF k assms(2)])
qed

text \<open>
  Claim C5, as the code has it. \<open>summarize_duplicates\<close> raises \<^verbatim>\<open>KeyError\<close> exactly when the
  table lacks \<^verbatim>\<open>base_sample\<close> or \<^verbatim>\<open>Cq\<close>, and the message names the column: \<^verbatim>\<open>base_sample\<close>
  when that one is missing, else \<^verbatim>\<open>Cq\<close>. With both columns there, the call returns a summary
  when \<^verbatim>\<open>Cq\<close> is a numeric column, and raises \<^verbatim>\<open>TypeError\<close> when \<^verbatim>\<open>Cq\<close> is a text column.
\<close>

theorem summarize_duplicates_missing_column:
  "((\<exists>m. summarize_duplicates K df = Inl (KeyError m)) \<longleftrightarrow>
      (''base_sample'' \<notin> set (columns df) \<or> ''Cq'' \<notin> set (columns df))) \<and>
   (''base_sample'' \<notin> set (columns df) \<longrightarrow>
      summarize_duplicates K df = Inl (KeyError (missing_column ''base_sample''))) \<and>
   (''base_sample'' \<in> set (columns df) \<and> ''Cq'' \<notin> set (columns df) \<longrightarrow>
      summarize_duplicates K df = Inl (KeyError (missing_column ''Cq''))) \<and>
   (''base_sample'' \<in> set (columns df) \<and> (\<exists>cq. getitem df ''Cq'' = Inr cq \<and> numeric cq) \<longrightarrow>
      (\<exists>summary. summarize_duplicates K df = Inr summary)) \<and>
   (''base_sample'' \<in> set (columns df) \<and> (\<exists>xs. getitem df ''Cq'' = Inr (StrCol xs)) \<longrightarrow>
      summarize_duplicates K df = Inl TypeError)"
proof (intro conjI impI)
  show "(\<exists>m. summarize_duplicates K df = Inl (KeyError m)) \<longleftrightarrow>
      (''base_sample'' \<notin> set (columns df) \<or> ''Cq'' \<notin> set (columns df))"
  proof
    assume e: "\<exists>m. summarize_duplicates K df = Inl (KeyError m)"
    show "''base_sample'' \<notin> set (columns df) \<or> ''Cq'' \<notin> set (columns df)"
    proof (rule ccontr)
      assume "\<not> ?thesis"
      then obtain key_col cq where g: "getitem df ''base_sample'' = Inr key_col" "getitem df ''Cq'' = Inr cq"
        using getitem_Inr_iff by blast
      from e show False
        unfolding summarize_duplicates_present [OF g]
        by (auto split: sum.splits dest: to_float_Inl)
    qed
  next
    assume "''base_sample'' \<notin> set (columns df) \<or> ''Cq'' \<notin> set (columns df)"
    then show "\<exists>m. summarize_duplicates K df = Inl (KeyError m)"
      by (auto simp: summarize_duplicates_def)
  qed
next
  assume "''base_sample'' \<notin> set (columns df)"
  then show "summarize_duplicates K df = Inl (KeyError (missing_column ''base_sample''))"
    by (simp add: summarize_duplicates_def)
next
  assume "''base_sample'' \<in> set (columns df) \<and> ''Cq'' \<notin> set (columns df)"
  then show "summarize_duplicates K df = Inl (KeyError (missing_column ''Cq''))"
    by (simp add: summarize_duplicates_def)
next
  assume a: "''base_sample'' \<in> set (columns df) \<and> (\<exists>cq. getitem df ''Cq'' = Inr cq \<and> numeric cq)"
  then obtain key_col cq vs where g: "getitem df ''base_sample'' = Inr key_col" "getitem df ''Cq'' = Inr cq"
    and v: "to_float cq = Inr vs"
    using getitem_Inr_iff to_float_numeric by blast
  show "\<exists>summary. summarize_duplicates K df = Inr summary"
    unfolding summarize_duplicates_present [OF g] using v by simp
next
  assume "''base_sample'' \<in> set (columns df) \<and> (\<exists>xs. getitem df ''Cq'' = Inr (StrCol xs))"
  then show "summarize_duplicates K df = Inl TypeError"
    using summarize_duplicates_text_cq by blast
qed

lemma columns_simps:
  "columns test_replicates = [''Sample'', ''Cq'']"
  "columns test_replicates_base = [''Sample'', ''Cq'', ''base_sample'']"
  "columns test_targets = [''Target'', ''Sample'', ''Cq'']"
  "columns base_sample_only = [''base_sample'']"
  "columns text_cq = [''Sample'', ''Cq'', ''base_sample'']"
  by (simp_all add: columns_def test_replicates_def test_replicates_base_def test_targets_def
      base_sample_only_def text_cq_def)

text \<open>
  Claim C5 as written has the call return whenever both columns are there. The columns
  are only looked for, not looked at: a \<^verbatim>\<open>Cq\<close> column of text is passed on to pandas, which
  does not average it.
\<close>

theorem summarize_duplicates_raises_on_text_cq:
  "''base_sample'' \<in> set (columns text_cq) \<and> ''Cq'' \<in> set (columns text_cq) \<and>
   summarize_duplicates exact text_cq = Inl TypeError"
proof -
  have "getitem text_cq ''Cq'' = Inr (StrCol [''Undetermined''])"
    by (simp add: getitem_def text_cq_def)
  then show ?thesis
    by (simp add: columns_simps summarize_duplicates_text_cq)
qed

theorem summarize_duplicates_missing_column_witness:
  "summarize_duplicates exact test_replicates = Inl (KeyError (missing_column ''base_sample'')) \<and>
   summarize_duplicates exact base_sample_only = Inl (KeyError (missing_column ''Cq'')) \<and>
   summarize_duplicates exact test_targets = Inl (KeyError (missing_column ''base_sample'')) \<and>
   (\<exists>summary. summarize_duplicates exact test_replicates_base = Inr summary) \<and>
   \<not> (\<exists>m. summarize_duplicates exact test_replicates_base = Inl (KeyError m)) \<and>
   summarize_duplicates exact text_cq = Inl TypeError \<and>
   \<not> (\<exists>m. summarize_duplicates exact text_cq = Inl (KeyError m))"
proof -
  have a: "''base_sample'' \<notin> set (columns test_replicates)"
    and b: "''base_sample'' \<notin> set (columns test_targets)"
    and c: "''base_sample'' \<in> set (columns test_replicates_base)"
    and c': "''Cq'' \<in> set (columns test_replicates_base)"
    and f: "''base_sample'' \<in> set (columns base_sample_only) \<and> ''Cq'' \<notin> set (columns base_sample_only)"
    and t: "''base_sample'' \<in> set (columns text_cq)"
    and t': "''Cq'' \<in> set (columns text_cq)"
    by (simp_all add: columns_simps)
  have d: "getitem test_replicates_base ''Cq'' = Inr (FloatCol [Val 20, Val 22, Val 18])"
    by (simp add: getitem_def test_replicates_base_def)
  have e: "numeric (FloatCol [Val 20, Val 22, Val 18])" by simp
  have u: "getitem text_cq ''Cq'' = Inr (StrCol [''Undetermined''])"
    by (simp add: getitem_def text_cq_def)
  have 1: "summarize_duplicates exact test_replicates = Inl (KeyError (missing_column ''base_sample''))"
    using a summarize_duplicates_missing_column [of exact test_replicates] by blast
  have 2: "summarize_duplicates exact base_sample_only = Inl (KeyError (missing_column ''Cq''))"
    using f summarize_duplicates_missing_column [of exact base_sample_only] by blast
  have 3: "summarize_duplicates exact test_targets = Inl (KeyError (missing_column ''base_sample''))"
    using b summarize_duplicates_missing_column [of exact test_targets] by blast
  have 4: "\<exists>summary. summarize_duplicates exact test_replicates_base = Inr summary"
    using c d e summarize_duplicates_missing_column [of exact test_replicates_base] by blast
  have 5: "\<not> (\<exists>m. summarize_duplicates exact test_replicates_base = Inl (KeyError m))"
    using c c' summarize_duplicates_missing_column [of exact test_replicates_base] by blast
  have 6: "summarize_duplicates exact text_cq = Inl TypeError"
    using t u summarize_duplicates_missing_column [of exact text_cq] by blast
  have 7: "\<not> (\<exists>m. summarize_duplicates exact text_cq = Inl (KeyError m))"
    using t t' summarize_duplicates_missing_column [of exact text_cq] by blast
  from 1 2 3 4 5 6 7 show ?thesis by simp
qed

subsection \<open>Groups\<close>

lemma group_keys_Some: "group_keys (map Some ks) = sort (remdups ks)"
proof -
  have "filter (\<lambda>k. k \<noteq> None) (map Some ks) = map Some ks"
    by (induction ks) auto
  then show ?thesis by (simp add: group_keys_def comp_def)
qed

lemma group_values_Some: "group_values (map Some ks) vs k = group_of ks vs k"
proof -
  have "filter (\<lambda>(k', v). k' = Some k) (zip (map Some ks) vs)
        = map (\<lambda>(k', v). (Some k', v)) (filter (\<lambda>row. fst row = k) (zip ks vs))"
    by (induction ks vs rule: list_induct2') auto
  then show ?thesis
    by (simp add: group_values_def group_of_def comp_def case_prod_unfold)
qed

lemma groupby_agg_text:
  "groupby_agg K (StrCol ks) vs =
     summary_frame K (StrCol (sort (remdups ks))) (map (group_of ks vs) (sort (remdups ks)))"
  by (simp add: groupby_def group_keys_Some group_values_Some comp_def)

lemma summarize_duplicates_text:
  assumes "getitem df ''base_sample'' = Inr (StrCol ks)" "getitem df ''Cq'' = Inr cq"
    "to_float cq = Inr vs"
  shows "summarize_duplicates K df =
     Inr (summary_frame K (StrCol (sort (remdups ks))) (map (group_of ks vs) (sort (remdups ks))))"
  using assms(3)
  by (simp add: summarize_duplicates_present [OF assms(1,2)] groupby_agg_text del: groupby_agg.simps)

lemma present_measured: "present vs = measured vs"
  by (induction vs rule: present.induct) (simp_all add: measured_def)


lemma agg_mean_measured:
  "agg_mean K vs = (if measured vs = [] then NaN else Val (mean_kernel K (measured vs)))"
  by (simp add: agg_mean_def present_measured)

lemma agg_std_measured:
  "agg_std K vs = (if length (measured vs) < 2 then NaN else Val (std_kernel K (measured vs)))"
  by (auto simp: agg_std_def present_measured)

lemma agg_count_measured: "agg_count vs = int (length (measured vs))"
  by (simp add: agg_count_def present_measured)




lemma map_of_getitem: "map_of (cols df) c = Some col \<Longrightarrow> getitem df c = Inr col"
  by (simp add: getitem_def)


text \<open>
  The summary of a table with text sample names and float measurements, written with the
  groups and measurements of the specification only.
\<close>

lemma summarize_duplicates_float:
  assumes "map_of (cols df) ''base_sample'' = Some (StrCol ks)"
    and "map_of (cols df) ''Cq'' = Some (FloatCol vs)"
    and "keys = sorted_list_of_set (set ks)"
  shows "summarize_duplicates K df =
     Inr \<lparr>index = [0..<length keys],
          cols = [(''base_sample'', StrCol keys),
                  (''mean_cq'', FloatCol (map (\<lambda>k. if measured (group_of ks vs k) = [] then NaN
                       else Val (mean_kernel K (measured (group_of ks vs k)))) keys)),
                  (''std_cq'', FloatCol (map (\<lambda>k. if length (measured (group_of ks vs k)) < 2 then NaN
                       else Val (std_kernel K (measured (group_of ks vs k)))) keys)),
                  (''n_reps'', IntCol (map (\<lambda>k. int (length (measured (group_of ks vs k)))) keys))]\<rparr>"
proof -
  have k: "keys = sort (remdups ks)"
    using assms(3) by (simp add: sorted_list_of_set_sort_remdups)
  have "summarize_duplicates K df =
     Inr (summary_frame K (StrCol keys) (map (group_of ks vs) keys))"
    unfolding k
    by (rule summarize_duplicates_text [OF map_of_getitem [OF assms(1)] map_of_getitem [OF assms(2)]])
       simp
  then show ?thesis
    by (simp add: summary_frame_def comp_def agg_mean_measured agg_std_measured agg_count_measured)
qed


subsection \<open>The tables of the tests\<close>

lemma test_keys:
  "sorted_list_of_set (set [''KC_sample1'', ''KC_sample1'', ''Control'']) = [''Control'', ''KC_sample1'']"
  "sorted_list_of_set (set [''KC_sample1'', ''KC_sample1'']) = [''KC_sample1'']"
  "sorted_list_of_set (set [''KC_sample1'', ''KC_sample1'', ''KC_sample1'']) = [''KC_sample1'']"
  by code_simp+

lemma test_replicates_base_facts:
  "wf_frame test_replicates_base"
  "getitem test_replicates_base ''base_sample'' = Inr (StrCol [''KC_sample1'', ''KC_sample1'', ''Control''])"
  "getitem test_replicates_base ''Cq'' = Inr (FloatCol [Val 20, Val 22, Val 18])"
  "to_float (FloatCol [Val 20, Val 22, Val 18]) = Inr [Val 20, Val 22, Val 18]"
  by (simp_all add: wf_frame_def getitem_def test_replicates_base_def)

lemma test_replicates_base_cols:
  "wf_frame test_replicates_base"
  "map_of (cols test_replicates_base) ''base_sample'' = Some (StrCol [''KC_sample1'', ''KC_sample1'', ''Control''])"
  "map_of (cols test_replicates_base) ''Cq'' = Some (FloatCol [Val 20, Val 22, Val 18])"
  by (simp_all add: wf_frame_def test_replicates_base_def)



lemma exact_simps: "mean_kernel exact = mean" "std_kernel exact = sample_std"
  by (simp_all add: exact_def)

lemma statistics_examples:
  "mean [18] = 18" "mean [20, 22] = 21" "mean [20] = 20" "sample_std [20, 22] = sqrt 2"
  by (simp_all add: sample_std_def mean_def)

lemma summarize_duplicates_test:
  "summarize_duplicates exact test_replicates_base =
     Inr \<lparr>index = [0, 1],
          cols = [(''base_sample'', StrCol [''Control'', ''KC_sample1'']),
                  (''mean_cq'', FloatCol [Val 18, Val 21]),
                  (''std_cq'', FloatCol [NaN, Val (sqrt 2)]),
                  (''n_reps'', IntCol [1, 2])]\<rparr>"
  by (subst summarize_duplicates_float [OF test_replicates_base_cols(2,3) test_keys(1) [symmetric]])
     (simp add: group_of_def measured_def exact_simps statistics_examples)

subsection \<open>One row per sample name\<close>




subsection \<open>The standard deviation\<close>




subsection \<open>The order of the summary\<close>

text \<open>
  Claim C10. The \<^verbatim>\<open>base_sample\<close> column of the summary is strictly ascending, in the order
  of Python strings (by code point, a proper prefix first). It is the sorted list of the
  set of sample names, so the order of the rows of the input has no influence on it.
\<close>

theorem summarize_duplicates_sorted:
  assumes "getitem df ''base_sample'' = Inr (StrCol ks)"
    and "getitem df ''Cq'' = Inr cq" and "to_float cq = Inr vs"
  shows "\<exists>summary keys.
     summarize_duplicates K df = Inr summary \<and>
     getitem summary ''base_sample'' = Inr (StrCol keys) \<and>
     sorted_wrt (<) keys \<and> set keys = set ks \<and> keys = sorted_list_of_set (set ks)"
proof -
  let ?keys = "sort (remdups ks)"
  have "summarize_duplicates K df =
     Inr (summary_frame K (StrCol ?keys) (map (group_of ks vs) ?keys))"
    by (rule summarize_duplicates_text [OF assms])
  moreover have "getitem (summary_frame K (StrCol ?keys) (map (group_of ks vs) ?keys)) ''base_sample''
      = Inr (StrCol ?keys)"
    by (simp add: getitem_def summary_frame_def)
  moreover have "sorted_wrt (<) ?keys"
    by (simp add: strict_sorted_iff)
  moreover have "set ?keys = set ks" by simp
  moreover have "?keys = sorted_list_of_set (set ks)"
    by (simp add: sorted_list_of_set_sort_remdups)
  ultimately show ?thesis by blast
qed

theorem summarize_duplicates_sorted_witness:
  "getitem test_replicates_base ''base_sample'' = Inr (StrCol [''KC_sample1'', ''KC_sample1'', ''Control'']) \<and>
   getitem test_replicates_base ''Cq'' = Inr (FloatCol [Val 20, Val 22, Val 18]) \<and>
   to_float (FloatCol [Val 20, Val 22, Val 18]) = Inr [Val 20, Val 22, Val 18] \<and>
   (\<exists>summary keys.
     summarize_duplicates exact test_replicates_base = Inr summary \<and>
     getitem summary ''base_sample'' = Inr (StrCol keys) \<and>
     sorted_wrt (<) keys \<and> set keys = set [''KC_sample1'', ''KC_sample1'', ''Control''] \<and> keys = sorted_list_of_set (set [''KC_sample1'', ''KC_sample1'', ''Control'']))"
  using test_replicates_base_facts(2,3,4)
    summarize_duplicates_sorted [OF test_replicates_base_facts(2,3,4), of exact]
  by (intro conjI)

section \<open>Properties of the objects\<close>

lemma filter_by_target_obj_returned:
  "returned (filter_by_target_obj h df g) = filter_by_target (h ! df) g"
  by (cases "getitem (h ! df) ''Target''")
     (simp_all add: returned_def filter_by_target_obj_def filter_by_target_def new_def copy_obj_def
       nth_append)

lemma add_base_sample_column_obj_returned:
  "returned (add_base_sample_column_obj h df) = add_base_sample_column (h ! df)"
  by (simp add: returned_def add_base_sample_column_obj_def add_base_sample_column_def new_def
      copy_obj_def setitem_obj_def Let_def split: sum.splits)

lemma summarize_duplicates_obj_returned:
  "returned (summarize_duplicates_obj K h df) = summarize_duplicates K (h ! df)"
  by (simp add: returned_def summarize_duplicates_obj_def new_def split: sum.splits)

lemma filter_by_target_obj_store:
  "take (length h) (snd (filter_by_target_obj h df g)) = h \<and>
   (\<forall>r. fst (filter_by_target_obj h df g) = Inr r \<longrightarrow> length h \<le> r \<and> r < length (snd (filter_by_target_obj h df g)))"
  by (cases "getitem (h ! df) ''Target''")
     (simp_all add: filter_by_target_obj_def new_def copy_obj_def)

lemma add_base_sample_column_obj_store:
  "take (length h) (snd (add_base_sample_column_obj h df)) = h \<and>
   (\<forall>r. fst (add_base_sample_column_obj h df) = Inr r \<longrightarrow> length h \<le> r \<and> r < length (snd (add_base_sample_column_obj h df)))"
  by (simp add: add_base_sample_column_obj_def new_def copy_obj_def setitem_obj_def Let_def
      split: sum.splits)

lemma summarize_duplicates_obj_store:
  "take (length h) (snd (summarize_duplicates_obj K h df)) = h \<and>
   (\<forall>r. fst (summarize_duplicates_obj K h df) = Inr r \<longrightarrow> length h \<le> r \<and> r < length (snd (summarize_duplicates_obj K h df)))"
  by (simp add: summarize_duplicates_obj_def new_def split: sum.splits)

lemma take_nth_eq: "take n h' = h \<Longrightarrow> i < length h \<Longrightarrow> h' ! i = h ! i"
  by (metis length_take min_less_iff_conj nth_take)

lemma input_unchangedI:
  assumes "df < length h" and "take (length h) (snd call) = h \<and>
        (\<forall>r. fst call = Inr r \<longrightarrow> length h \<le> r \<and> r < length (snd call))"
  shows "input_unchanged h df call"
proof -
  have "snd call ! df = h ! df" using assms take_nth_eq by blast
  then show ?thesis using assms by (auto simp: input_unchanged_def split: sum.splits)
qed

text \<open>
  Claim C4. \<open>filter_by_target\<close>, \<open>add_base_sample_column\<close> and \<open>summarize_duplicates\<close> leave
  the table they are given as it was, with the same index, columns and values, and what
  they return is a new object, distinct from the input.
\<close>

theorem input_table_unchanged:
  assumes "df < length h"
  shows "input_unchanged h df (filter_by_target_obj h df g) \<and>
         input_unchanged h df (add_base_sample_column_obj h df) \<and>
         input_unchanged h df (summarize_duplicates_obj K h df)"
  using input_unchangedI [OF assms filter_by_target_obj_store]
    input_unchangedI [OF assms add_base_sample_column_obj_store]
    input_unchangedI [OF assms summarize_duplicates_obj_store]
  by simp

theorem input_table_unchanged_witness:
  "(0::nat) < length [test_targets] \<and>
   input_unchanged [test_targets] 0 (filter_by_target_obj [test_targets] 0 ''Actb'') \<and>
   input_unchanged [test_targets] 0 (add_base_sample_column_obj [test_targets] 0) \<and>
   input_unchanged [test_targets] 0 (summarize_duplicates_obj exact [test_targets] 0)"
proof -
  have h: "(0::nat) < length [test_targets]" by simp
  show ?thesis using h input_table_unchanged [OF h, of "''Actb''" exact] by simp
qed

lemma add_base_sample_column_obj_test:
  "add_base_sample_column_obj [test_replicates] 0 = (Inr 1, [test_replicates, test_replicates_base])"
proof -
  have "map clean_sample_name [''KC_sample1_1'', ''KC_sample1_2'', ''Control_1'']
        = [''KC_sample1'', ''KC_sample1'', ''Control'']"
    by code_simp
  then show ?thesis
    by (simp add: add_base_sample_column_obj_def copy_obj_def new_def copy_def getitem_def
        setitem_obj_def setitem_def test_replicates_def test_replicates_base_def)
qed

section \<open>Properties of the pipeline\<close>

lemma filter_by_target_missing: "''Target'' \<notin> set (columns df) \<Longrightarrow> filter_by_target df g = Inl (KeyError ''Target'')"
  by (simp add: filter_by_target_def getitem_cases)

text \<open>
  Claim C8. When the loaded table lacks \<^verbatim>\<open>Target\<close>, \<^verbatim>\<open>Sample\<close> or \<^verbatim>\<open>Cq\<close>, the pipeline raises
  \<^verbatim>\<open>KeyError\<close> with the message that names a missing column, the first of the three in that
  order. It does so whatever the target is: nothing is filtered, normalized or aggregated
  first, or the error would be the one of \<open>filter_by_target_missing\<close>, or a table without
  \<^verbatim>\<open>Cq\<close> and without the target would give an empty result.
\<close>

theorem summarize_target_from_file_missing_column:
  assumes "load_qpcr_csv filename = Inr df"
    and "''Target'' \<notin> set (columns df) \<or> ''Sample'' \<notin> set (columns df) \<or> ''Cq'' \<notin> set (columns df)"
  shows "\<exists>col. col \<in> {''Target'', ''Sample'', ''Cq''} \<and> col \<notin> set (columns df) \<and>
           (\<forall>target_name. summarize_target_from_file K load_qpcr_csv filename target_name
                             = Inl (KeyError (missing_column col))) \<and>
           (''Target'' \<notin> set (columns df) \<longrightarrow> col = ''Target'') \<and>
           (''Target'' \<in> set (columns df) \<and> ''Sample'' \<notin> set (columns df) \<longrightarrow> col = ''Sample'')"
proof -
  consider (t) "''Target'' \<notin> set (columns df)"
    | (s) "''Target'' \<in> set (columns df)" "''Sample'' \<notin> set (columns df)"
    | (c) "''Target'' \<in> set (columns df)" "''Sample'' \<in> set (columns df)" "''Cq'' \<notin> set (columns df)"
    using assms(2) by blast
  then show ?thesis
  proof cases
    case t
    then have "\<forall>g. summarize_target_from_file K load_qpcr_csv filename g = Inl (KeyError (missing_column ''Target''))"
      using assms(1) by (simp add: summarize_target_from_file_def)
    with t show ?thesis by blast
  next
    case s
    then have "\<forall>g. summarize_target_from_file K load_qpcr_csv filename g = Inl (KeyError (missing_column ''Sample''))"
      using assms(1) by (simp add: summarize_target_from_file_def)
    with s show ?thesis by blast
  next
    case c
    then have "\<forall>g. summarize_target_from_file K load_qpcr_csv filename g = Inl (KeyError (missing_column ''Cq''))"
      using assms(1) by (simp add: summarize_target_from_file_def)
    with c show ?thesis by blast
  qed
qed

theorem summarize_target_from_file_missing_column_witness:
  "''Target'' \<notin> set (columns test_replicates) \<and>
   summarize_target_from_file exact (\<lambda>_. Inr test_replicates) ''plate.csv'' ''Actb''
     = Inl (KeyError (missing_column ''Target'')) \<and>
   ''Cq'' \<notin> set (columns base_sample_only) \<and>
   summarize_target_from_file exact (\<lambda>_. Inr base_sample_only) ''plate.csv'' ''Actb''
     = Inl (KeyError (missing_column ''Target''))"
proof -
  have a: "(\<lambda>_. Inr test_replicates) ''plate.csv'' = (Inr test_replicates :: error + dataframe)"
    and a': "(\<lambda>_. Inr base_sample_only) ''plate.csv'' = (Inr base_sample_only :: error + dataframe)"
    by simp_all
  have t: "''Target'' \<notin> set (columns test_replicates)"
    and t': "''Target'' \<notin> set (columns base_sample_only)"
    and c': "''Cq'' \<notin> set (columns base_sample_only)"
    by (simp_all add: columns_simps)
  have 1: "summarize_target_from_file exact (\<lambda>_. Inr test_replicates) ''plate.csv'' ''Actb''
     = Inl (KeyError (missing_column ''Target''))"
    using t summarize_target_from_file_missing_column
      [of "\<lambda>_. Inr test_replicates" "''plate.csv''" test_replicates exact, OF a]
    by blast
  have 2: "summarize_target_from_file exact (\<lambda>_. Inr base_sample_only) ''plate.csv'' ''Actb''
     = Inl (KeyError (missing_column ''Target''))"
    using t' summarize_target_from_file_missing_column
      [of "\<lambda>_. Inr base_sample_only" "''plate.csv''" base_sample_only exact, OF a']
    by blast
  from t c' 1 2 show ?thesis by simp
qed

lemma select_none: "select (map (\<lambda>_. False) rs) xs = []"
proof (induction rs arbitrary: xs)
  case Nil
  show ?case by simp
next
  case (Cons r rs)
  then show ?case by (cases xs) simp_all
qed

text \<open>
  Claim C9. When the loaded table has the three columns and no row with the given target,
  the pipeline returns \<^verbatim>\<open>pd.DataFrame()\<close>, a table without rows and without columns, and
  raises nothing.
\<close>

theorem summarize_target_from_file_no_match:
  assumes "load_qpcr_csv filename = Inr df" and "wf_frame df"
    and "''Target'' \<in> set (columns df)" and "''Sample'' \<in> set (columns df)"
    and "''Cq'' \<in> set (columns df)"
    and "\<forall>r \<in> set (rows df). row_target r \<noteq> Some (CStr target_name)"
  shows "summarize_target_from_file K load_qpcr_csv filename target_name = Inr DataFrame \<and>
         index DataFrame = [] \<and> columns DataFrame = [] \<and> rows DataFrame = []"
proof -
  obtain t where t: "getitem df ''Target'' = Inr t"
    using assms(3) getitem_Inr_iff by blast
  have f: "filter_by_target df target_name = Inr (getitem_mask df (eq_mask t target_name))"
    by (rule filter_by_target_rows(1) [OF assms(2) t])
  have m: "eq_mask t target_name = map (\<lambda>r. False) (rows df)"
    using eq_mask_rows [OF assms(2) t, of target_name] assms(6) by simp
  have "index (getitem_mask df (eq_mask t target_name)) = []"
    by (simp add: getitem_mask_def m select_none)
  then have "empty (getitem_mask df (eq_mask t target_name))" by (simp add: empty_def)
  then have "summarize_target_from_file K load_qpcr_csv filename target_name = Inr DataFrame"
    using assms(1,3,4,5) f by (simp add: summarize_target_from_file_def)
  then show ?thesis by (simp add: DataFrame_def columns_def rows_def)
qed


lemma test_targets_facts:
  "wf_frame test_targets"
  "''Target'' \<in> set (columns test_targets)"
  "''Sample'' \<in> set (columns test_targets)"
  "''Cq'' \<in> set (columns test_targets)"
  by (simp_all add: columns_simps) (simp add: wf_frame_def test_targets_def)

lemma rows_test_targets:
  "rows test_targets =
     [(0, [(''Target'', CStr ''Actb''), (''Sample'', CStr ''s1''), (''Cq'', CFloat (Val 20))]),
      (1, [(''Target'', CStr ''Actb''), (''Sample'', CStr ''s2''), (''Cq'', CFloat (Val 21))]),
      (2, [(''Target'', CStr ''Stat3''), (''Sample'', CStr ''s1''), (''Cq'', CFloat (Val 24))])]"
  by (simp add: rows_def test_targets_def)

theorem summarize_target_from_file_no_match_witness:
  "wf_frame test_targets \<and> ''Target'' \<in> set (columns test_targets) \<and>
   ''Sample'' \<in> set (columns test_targets) \<and> ''Cq'' \<in> set (columns test_targets) \<and>
   map row_target (rows test_targets)
     = [Some (CStr ''Actb''), Some (CStr ''Actb''), Some (CStr ''Stat3'')] \<and>
   summarize_target_from_file exact (\<lambda>_. Inr test_targets) ''plate.csv'' ''Gapdh'' = Inr DataFrame \<and>
   index DataFrame = [] \<and> columns DataFrame = [] \<and> rows DataFrame = []"
proof -
  have a: "(\<lambda>_. Inr test_targets) ''plate.csv'' = (Inr test_targets :: error + dataframe)" by simp
  have m: "map row_target (rows test_targets)
     = [Some (CStr ''Actb''), Some (CStr ''Actb''), Some (CStr ''Stat3'')]"
    by (simp add: rows_test_targets row_target_def)
  have n: "\<forall>r \<in> set (rows test_targets). row_target r \<noteq> Some (CStr ''Gapdh'')"
    by (simp add: rows_test_targets row_target_def)
  show ?thesis
    using test_targets_facts m
      summarize_target_from_file_no_match
        [of "\<lambda>_. Inr test_targets" "''plate.csv''" test_targets "''Gapdh''" exact,
          OF a test_targets_facts n]
    by simp
qed

subsection \<open>A run of the pipeline\<close>

text \<open>The table of the filter test, summarized for \<^verbatim>\<open>Actb\<close>: two samples, one replicate each.\<close>

lemma summarize_target_from_file_test:
  "summarize_target_from_file exact (\<lambda>_. Inr test_targets) ''plate.csv'' ''Actb'' =
     Inr \<lparr>index = [0, 1],
          cols = [(''base_sample'', StrCol [''s1'', ''s2'']),
                  (''mean_cq'', FloatCol [Val 20, Val 21]),
                  (''std_cq'', FloatCol [NaN, NaN]),
                  (''n_reps'', IntCol [1, 1])]\<rparr>"
proof -
  define selected where "selected =
     \<lparr>index = [0, 1 :: nat],
      cols = [(''Target'', StrCol [''Actb'', ''Actb'']),
              (''Sample'', StrCol [''s1'', ''s2'']),
              (''Cq'', FloatCol [Val 20, Val 21])]\<rparr>"
  define named where "named =
     \<lparr>index = [0, 1 :: nat],
      cols = [(''Target'', StrCol [''Actb'', ''Actb'']),
              (''Sample'', StrCol [''s1'', ''s2'']),
              (''Cq'', FloatCol [Val 20, Val 21]),
              (''base_sample'', StrCol [''s1'', ''s2''])]\<rparr>"
  define summary where "summary =
     \<lparr>index = [0, 1 :: nat],
          cols = [(''base_sample'', StrCol [''s1'', ''s2'']),
                  (''mean_cq'', FloatCol [Val 20, Val 21]),
                  (''std_cq'', FloatCol [NaN, NaN]),
                  (''n_reps'', IntCol [1, 1])]\<rparr>"
  have f: "filter_by_target test_targets ''Actb'' = Inr selected"
    using filter_by_target_test by (simp add: selected_def)
  have e: "\<not> empty selected" by (simp add: empty_def selected_def)
  have c: "clean_sample_name ''s1'' = ''s1''" "clean_sample_name ''s2'' = ''s2''" by code_simp+
  have k: "sort (remdups [''s1'', ''s2'']) = [''s1'', ''s2'']" by code_simp
  have a: "add_base_sample_column selected = Inr named"
    by (simp add: add_base_sample_column_def copy_def getitem_def setitem_def c selected_def named_def)
  have g: "getitem named ''base_sample'' = Inr (StrCol [''s1'', ''s2''])"
    "getitem named ''Cq'' = Inr (FloatCol [Val 20, Val 21])"
    "to_float (FloatCol [Val 20, Val 21]) = Inr [Val 20, Val 21]"
    by (simp_all add: getitem_def named_def)
  have s: "summarize_duplicates exact named = Inr summary"
    by (simp add: summarize_duplicates_text [OF g] k summary_frame_def group_of_def
        agg_mean_def agg_std_def agg_count_def upt_rec summary_def exact_simps mean_def)
  have "summarize_target_from_file exact (\<lambda>_. Inr test_targets) ''plate.csv'' ''Actb'' = Inr summary"
    by (simp add: summarize_target_from_file_def columns_simps f e a s)
  then show ?thesis by (simp add: summary_def)
qed

end
